theory Spec2Isabelle
  imports Main "HOL-Library.Sublist" "HOL-Library.Log_Nat"
begin

section \<open>Python values used by app/main.py\<close>

text \<open>
  The exceptions that the modelled functions raise, catch or let through. A call that can
  raise returns \<open>exn + 'a\<close>, with \<open>Inl\<close> for the exception.
\<close>

datatype exn = ValueError | TypeError | IndexError | OverflowError

text \<open>
  A Python \<open>str\<close> is modelled as the list of the bytes of its UTF-8 encoding. Concatenation
  and the substring test \<open>a in b\<close> (\<^const>\<open>sublist\<close>) agree with Python's on that encoding.
  The em dash U+2014 of the source's literals is three bytes.
\<close>

definition em_dash :: string where
  "em_dash = [CHR 0xE2, CHR 0x80, CHR 0x94]"

text \<open>\<open>str(n)\<close> and \<open>f"{n}"\<close> for a non-negative integer: its decimal digits.\<close>

definition digit :: "nat \<Rightarrow> char" where
  "digit d = ''0123456789'' ! d"

function str_nat :: "nat \<Rightarrow> string" where
  "str_nat n = (if n < 10 then [digit n] else str_nat (n div 10) @ [digit (n mod 10)])"
  by pat_completeness auto
termination
  by (relation "measure (\<lambda>n. n)") auto

declare str_nat.simps [simp del]

section \<open>The data model\<close>

text \<open>
  An entry of \<open>ETCBC_SAMPLES\<close> (app/data/etcbc_samples.json), with the keys that main.py
  reads. A record has every key, so the \<open>KeyError\<close> of a missing key is outside the model.
\<close>

record morph =
  part_of_speech :: string
  root :: string

record sample =
  reference :: string
  book :: string
  hebrew_focus :: string
  translation :: string
  morphology :: morph
  exegetical_notes :: "string list"
  lexical_insights :: "string list"
  themes :: "string list"

text \<open>A lesson section, as \<open>construct_sections\<close> builds it, and a slide of \<open>create_slides\<close>.\<close>

record lesson_section =
  title :: string
  content :: string
  exegetical :: "string list"
  application :: string

record slide =
  slide_title :: string
  bullets :: "string list"
  speaker_notes :: string

section \<open>Sample selection\<close>

text \<open>\<open>(x or "")\<close> for an optional string.\<close>

definition or_empty :: "string option \<Rightarrow> string" where
  "or_empty x = (case x of None \<Rightarrow> [] | Some s \<Rightarrow> s)"

text \<open>
  \<open>select_sample(topic, passage)\<close>, lines 90-100. The catalog \<open>ETCBC_SAMPLES\<close>, a module
  global read from a file, is a parameter. So is the built-in \<open>str.lower()\<close>, the
  parameter \<open>lower\<close>: it maps every cased letter of Unicode, by tables that are not part
  of the sources. The two conditions of lines 94 and 98 are \<open>passage_matches\<close> and
  \<open>topic_matches\<close>; each \<open>for\<close> statement returns at its first match.
  \<open>ETCBC_SAMPLES[0]\<close> raises \<open>IndexError\<close> on an empty catalog.
\<close>

definition passage_matches :: "(string \<Rightarrow> string) \<Rightarrow> string \<Rightarrow> sample \<Rightarrow> bool" where
  "passage_matches lower normalized_passage sample =
     (normalized_passage \<noteq> [] \<and> sublist normalized_passage (lower (reference sample)))"

definition topic_matches :: "(string \<Rightarrow> string) \<Rightarrow> string \<Rightarrow> sample \<Rightarrow> bool" where
  "topic_matches lower normalized_topic sample =
     list_ex (\<lambda>theme. sublist normalized_topic (lower theme)) (themes sample)"

fun passage_loop :: "(string \<Rightarrow> string) \<Rightarrow> string \<Rightarrow> sample list \<Rightarrow> sample option" where
  "passage_loop lower normalized_passage [] = None"
| "passage_loop lower normalized_passage (sample # rest) =
     (if passage_matches lower normalized_passage sample then Some sample
      else passage_loop lower normalized_passage rest)"

fun topic_loop :: "(string \<Rightarrow> string) \<Rightarrow> string \<Rightarrow> sample list \<Rightarrow> sample option" where
  "topic_loop lower normalized_topic [] = None"
| "topic_loop lower normalized_topic (sample # rest) =
     (if topic_matches lower normalized_topic sample then Some sample
      else topic_loop lower normalized_topic rest)"

definition select_sample ::
  "(string \<Rightarrow> string) \<Rightarrow> sample list \<Rightarrow> string option \<Rightarrow> string option \<Rightarrow> exn + sample" where
  "select_sample lower ETCBC_SAMPLES topic passage =
     (let normalized_topic = lower (or_empty topic);
          normalized_passage = lower (or_empty passage)
      in case passage_loop lower normalized_passage ETCBC_SAMPLES of
           Some sample \<Rightarrow> Inr sample
         | None \<Rightarrow>
             (case (if normalized_topic \<noteq> []
                    then topic_loop lower normalized_topic ETCBC_SAMPLES
                    else None) of
                Some sample \<Rightarrow> Inr sample
              | None \<Rightarrow>
                  (case ETCBC_SAMPLES of [] \<Rightarrow> Inl IndexError | sample # _ \<Rightarrow> Inr sample)))"

section \<open>Dates\<close>

text \<open>
  Python's \<open>datetime\<close>, as far as main.py uses it. The proleptic Gregorian ordinal of a
  date follows the standard library (\<open>_is_leap\<close>, \<open>_days_before_year\<close>,
  \<open>_days_in_month\<close>, \<open>_days_before_month\<close>, \<open>_ymd2ord\<close>): day 1 is 0001-01-01.
\<close>

definition is_leap :: "int \<Rightarrow> bool" where
  "is_leap y = (y mod 4 = 0 \<and> (y mod 100 \<noteq> 0 \<or> y mod 400 = 0))"

definition days_before_year :: "int \<Rightarrow> int" where
  "days_before_year y = (let p = y - 1 in p * 365 + p div 4 - p div 100 + p div 400)"

definition days_in_month :: "int \<Rightarrow> int \<Rightarrow> int" where
  "days_in_month y m =
     (if m = 2 \<and> is_leap y then 29
      else [31, 28, 31, 30, 31, 30, 31, 31, 30, 31, 30, 31] ! nat (m - 1))"

definition days_before_month :: "int \<Rightarrow> int \<Rightarrow> int" where
  "days_before_month y m =
     [0, 31, 59, 90, 120, 151, 181, 212, 243, 273, 304, 334] ! nat (m - 1)
       + (if 2 < m \<and> is_leap y then 1 else 0)"

definition ymd2ord :: "int \<Rightarrow> int \<Rightarrow> int \<Rightarrow> int" where
  "ymd2ord y m d = days_before_year y + days_before_month y m + d"

text \<open>
  A naive \<open>datetime\<close>: the date and the time of day in microseconds since midnight.
  A datetime that carries a time zone is outside the model. \<open>datetime(y, m, d)\<close> raises
  \<open>ValueError\<close> outside the years 1..9999 and for a month or day that does not exist.
\<close>

record datetime =
  dt_year :: int
  dt_month :: int
  dt_day :: int
  dt_time :: int

definition datetime_new :: "int \<Rightarrow> int \<Rightarrow> int \<Rightarrow> exn + datetime" where
  "datetime_new y m d =
     (if 1 \<le> y \<and> y \<le> 9999 \<and> 1 \<le> m \<and> m \<le> 12 \<and> 1 \<le> d \<and> d \<le> days_in_month y m
      then Inr \<lparr> dt_year = y, dt_month = m, dt_day = d, dt_time = 0 \<rparr>
      else Inl ValueError)"

definition toordinal :: "datetime \<Rightarrow> int" where
  "toordinal t = ymd2ord (dt_year t) (dt_month t) (dt_day t)"




section \<open>Festival matching\<close>











section \<open>Congregation context\<close>

text \<open>
  The calendar \<open>CONG_CALENDAR\<close> (app/data/congregation_calendar.json) maps a congregation
  identifier to a profile. A profile is a dictionary read with \<open>.get\<close>, so each of its keys
  may be absent; the key \<open>values\<close> is the field \<open>profile_values\<close>. An entry of
  \<open>significant_dates\<close> has the keys \<open>date\<close> and \<open>description\<close> and may have
  \<open>emphasis\<close> (\<open>item_emphasis\<close>). The keys of an event of the result are prefixed with
  \<open>event_\<close>, those of the result with \<open>context_\<close>.
\<close>

record significant_date =
  date :: string
  description :: string
  item_emphasis :: "string option"

record profile =
  name :: "string option"
  location :: "string option"
  profile_values :: "string list option"
  significant_dates :: "significant_date list option"

record event =
  event_description :: string
  event_emphasis :: "string option"
  event_days_apart :: int

record congregation_info =
  context_name :: "string option"
  context_location :: "string option"
  context_values :: "string list"
  nearby_events :: "event list"

text \<open>
  \<open>congregation_context(congregation_id, target_date)\<close>, lines 103-119.
  \<^item> \<open>resolve_record\<close> is line 104: \<open>CONG_CALENDAR.get(id) or CONG_CALENDAR.get("default", {})\<close>;
    an empty dictionary is false, so it falls through to the default as well.
  \<^item> \<open>parser.isoparse\<close> belongs to the third-party package dateutil and is a parameter.
    \<open>events_loop\<close> is the loop of lines 106-113: \<open>except (ValueError, TypeError): continue\<close>
    goes on with the next entry, any other exception leaves the function. The distance is
    taken between the two dates, without the time of day.
\<close>

definition empty_dict :: profile where
  "empty_dict = \<lparr> name = None, location = None, profile_values = None, significant_dates = None \<rparr>"

definition get_or :: "'a option \<Rightarrow> 'a \<Rightarrow> 'a" where
  "get_or x dflt = (case x of None \<Rightarrow> dflt | Some v \<Rightarrow> v)"

definition resolve_record :: "(string \<rightharpoonup> profile) \<Rightarrow> string \<Rightarrow> profile" where
  "resolve_record CONG_CALENDAR congregation_id =
     (case CONG_CALENDAR congregation_id of
        Some r \<Rightarrow> if r \<noteq> empty_dict then r else get_or (CONG_CALENDAR ''default'') empty_dict
      | None \<Rightarrow> get_or (CONG_CALENDAR ''default'') empty_dict)"



text \<open>
  Notions used to state the properties of the resolver: whether an entry's date parses, and
  the events an entry contributes.
\<close>

definition item_parses :: "(string \<Rightarrow> exn + datetime) \<Rightarrow> significant_date \<Rightarrow> bool" where
  "item_parses isoparse item = (case isoparse (date item) of Inl e \<Rightarrow> False | Inr d \<Rightarrow> True)"

definition item_events ::
  "(string \<Rightarrow> exn + datetime) \<Rightarrow> datetime \<Rightarrow> significant_date \<Rightarrow> event list" where
  "item_events isoparse target_date item =
     (case isoparse (date item) of
        Inl e \<Rightarrow> []
      | Inr event_date \<Rightarrow>
          (if \<bar>toordinal target_date - toordinal event_date\<bar> \<le> 21
           then [\<lparr> event_description = description item, event_emphasis = item_emphasis item,
                    event_days_apart = \<bar>toordinal target_date - toordinal event_date\<bar> \<rparr>]
           else []))"


section \<open>Narrative composition\<close>

text \<open>\<open>build_conclusion(sample, introduction)\<close>, lines 168-173.\<close>

definition build_conclusion :: "sample \<Rightarrow> string \<Rightarrow> string" where
  "build_conclusion sample introduction =
     (let focus = hebrew_focus sample
      in (''The same cadence that opened our time'' @ em_dash @ focus @ em_dash
            @ ''now sends us. Let the insights we traced move from study to practice: '')
          @ ''embrace God's invitation, embody covenantal blessing, and walk toward Christlike transformation together.'')"

text \<open>\<open>construct_sections(sample, estimated_minutes)\<close>, lines 176-217.\<close>

definition base_points :: "sample \<Rightarrow> lesson_section list" where
  "base_points sample =
     [ \<lparr> title = ''Textual Horizon'',
         content =
           reference sample @ '' anchors the lesson. Key Hebrew focus: '' @ hebrew_focus sample
             @ '' ('' @ translation sample @ ''). ''
             @ ''Morphology: '' @ part_of_speech (morphology sample) @ '' rooted in ''
             @ root (morphology sample) @ ''.'',
         exegetical = exegetical_notes sample,
         application =
           ''Trace the flow of the passage, inviting listeners to inhabit the narrative movement.'' \<rparr>,
       \<lparr> title = ''Linguistic Insights'',
         content = ''Lexical themes emerge, amplifying covenantal movement.'',
         exegetical = lexical_insights sample,
         application =
           ''Highlight how the Hebrew terms reshape imagination and discipleship practices.'' \<rparr>,
       \<lparr> title = ''Formation Pathways'',
         content = ''Move from exegesis to embodied action.'',
         exegetical =
           [ ''Map the passage's structure to contemporary rhythms (gathering, scattering, serving).'',
             ''Invite testimonies or reflective prayer that echo the text's movement.'' ],
         application =
           ''Provide concrete steps for the congregation to live the text this week.'' \<rparr> ]"

definition construct_sections :: "sample \<Rightarrow> int \<Rightarrow> lesson_section list" where
  "construct_sections sample estimated_minutes =
     (if estimated_minutes < 25 then
        (let condensed = take 1 (base_points sample)
         in condensed @
            [ \<lparr> title = ''Concise Insight'',
                content =
                  ''In limited time, emphasize the pivot: '' @ hebrew_focus sample
                    @ '' propels us toward faithful obedience.'',
                exegetical = take 1 (lexical_insights sample),
                application = ''Offer one spiritual practice and one communal action.'' \<rparr> ])
      else base_points sample)"

section \<open>Runtime estimation\<close>

text \<open>
  \<open>estimate_runtime(estimated_minutes, interpreted)\<close>, lines 220-223, computes
  \<open>int(estimated_minutes * 0.65)\<close> in binary64 floating point. The model follows that
  arithmetic exactly, on integers:
  \<^item> \<open>round_half_even n e\<close> rounds \<open>n\<close> to the nearest multiple of \<open>2 ^ e\<close>, a tie
    going to the even quotient; \<open>round53 n\<close> rounds a non-negative integer to 53
    significant bits, as the conversion of a Python \<open>int\<close> to \<open>float\<close> and the
    rounding of a product do;
  \<^item> \<open>float_of_int\<close> is that conversion: the nearest double (an integer here), or
    \<open>OverflowError\<close> when the rounded value reaches \<open>2 ^ 1024\<close>;
  \<^item> the literal \<open>0.65\<close> denotes the double \<open>double_065 / 2 ^ 53\<close>; \<open>times_065 f\<close> is
    the numerator over \<open>2 ^ 53\<close> of the rounded product of the double \<open>f\<close> with it (the
    product of a non-zero integer double below \<open>2 ^ 1024\<close> with \<open>0.65\<close> neither overflows
    nor is subnormal, so rounding to 53 significant bits is all that happens);
  \<^item> \<open>int_of_scaled x\<close> is \<open>int()\<close> of the double \<open>x / 2 ^ 53\<close>: truncation toward zero.
\<close>

definition round_half_even :: "int \<Rightarrow> nat \<Rightarrow> int" where
  "round_half_even n e =
     (let q = n div 2 ^ e; r = n mod 2 ^ e
      in if 2 ^ e < 2 * r \<or> (2 * r = 2 ^ e \<and> odd q) then (q + 1) * 2 ^ e else q * 2 ^ e)"

definition round53 :: "int \<Rightarrow> int" where
  "round53 n = round_half_even n (nat (bitlen n - 53))"

definition float_of_int :: "int \<Rightarrow> exn + int" where
  "float_of_int m =
     (let a = round53 \<bar>m\<bar>
      in if 2 ^ 1024 \<le> a then Inl OverflowError else Inr (sgn m * a))"

definition double_065 :: int where
  "double_065 = 5854679515581645"

definition times_065 :: "int \<Rightarrow> int" where
  "times_065 f = sgn f * round53 (\<bar>f\<bar> * double_065)"

definition int_of_scaled :: "int \<Rightarrow> int" where
  "int_of_scaled x = sgn x * (\<bar>x\<bar> div 2 ^ 53)"

definition estimate_runtime :: "int \<Rightarrow> bool \<Rightarrow> exn + int" where
  "estimate_runtime estimated_minutes interpreted =
     (if interpreted then
        (case float_of_int estimated_minutes of
           Inl e \<Rightarrow> Inl e
         | Inr f \<Rightarrow> Inr (max 10 (int_of_scaled (times_065 f))))
      else Inr estimated_minutes)"



section \<open>Slide structuring\<close>

text \<open>
  \<open>create_slides(introduction, sections, conclusion)\<close>, lines 230-253. The loop over
  \<open>enumerate(sections, start=1)\<close> appends one slide per section to the list \<open>slides\<close>,
  which is passed along as the accumulator.
\<close>

definition opening_slide :: "string \<Rightarrow> slide" where
  "opening_slide introduction =
     \<lparr> slide_title = ''Opening Story'',
       bullets = [introduction],
       speaker_notes = ''Welcome, frame the occasion, and read the passage aloud.'' \<rparr>"

definition section_slide :: "nat \<Rightarrow> lesson_section \<Rightarrow> slide" where
  "section_slide idx sect =
     \<lparr> slide_title = str_nat idx @ ''. '' @ title sect,
       bullets = [content sect] @ exegetical sect @ [application sect],
       speaker_notes = ''Guide discussion; invite observations and response.'' \<rparr>"

definition closing_slide :: "string \<Rightarrow> slide" where
  "closing_slide conclusion =
     \<lparr> slide_title = ''Sending Charge'',
       bullets = [conclusion],
       speaker_notes = ''Summarize commitments and pray a commissioning blessing.'' \<rparr>"

fun append_section_slides :: "nat \<Rightarrow> lesson_section list \<Rightarrow> slide list \<Rightarrow> slide list" where
  "append_section_slides idx [] slides = slides"
| "append_section_slides idx (sect # rest) slides =
     append_section_slides (idx + 1) rest (slides @ [section_slide idx sect])"

definition create_slides :: "string \<Rightarrow> lesson_section list \<Rightarrow> string \<Rightarrow> slide list" where
  "create_slides introduction sections conclusion =
     (let slides = [opening_slide introduction];
          slides = append_section_slides 1 sections slides
      in slides @ [closing_slide conclusion])"

section \<open>Example data\<close>

text \<open>
  The catalog file is not part of the sources at hand; the samples below are inputs of the
  right shape, used to evaluate the functions at concrete points.
\<close>

definition example_sample :: sample where
  "example_sample =
     \<lparr> reference = ''Genesis 12:1-3'',
       book = ''Genesis'',
       hebrew_focus = ''lekh-lekha'',
       translation = ''go forth'',
       morphology = \<lparr> part_of_speech = ''verb'', root = ''hlk'' \<rparr>,
       exegetical_notes = [''The call precedes the promise.'', ''Blessing is for all families.''],
       lexical_insights = [''Movement marks covenant.'', ''Blessing recurs five times.''],
       themes = [''Covenant'', ''Blessing'', ''Calling''] \<rparr>"

text \<open>
  A stand-in for \<open>str.lower()\<close> that agrees with it on ASCII text, used only to evaluate
  the selector on ASCII queries.
\<close>

definition ascii_lower_char :: "char \<Rightarrow> char" where
  "ascii_lower_char c =
     (case map_of (zip ''ABCDEFGHIJKLMNOPQRSTUVWXYZ'' ''abcdefghijklmnopqrstuvwxyz'') c of
        Some l \<Rightarrow> l
      | None \<Rightarrow> c)"

definition ascii_lower :: "string \<Rightarrow> string" where
  "ascii_lower s = map ascii_lower_char s"

definition example_catalog :: "sample list" where
  "example_catalog =
     [ example_sample,
       example_sample \<lparr> reference := ''Exodus 3:14'', book := ''Exodus'',
                        themes := [''Divine Name'', ''Deliverance''] \<rparr>,
       example_sample \<lparr> reference := ''Ruth 1:16'', book := ''Ruth'',
                        themes := [''Loyalty'', ''Covenant''] \<rparr> ]"

definition bare_sample :: sample where
  "bare_sample = example_sample \<lparr> lexical_insights := [] \<rparr>"

definition example_sections :: "lesson_section list" where
  "example_sections =
     [ \<lparr> title = ''Textual Horizon'', content = ''Genesis 12:1-3 anchors the lesson.'',
         exegetical = [''The call precedes the promise.'', ''Blessing is for all families.''],
         application = ''Trace the flow of the passage.'' \<rparr>,
       \<lparr> title = ''Concise Insight'', content = ''Emphasize the pivot.'',
         exegetical = [''Movement marks covenant.''],
         application = ''Offer one spiritual practice and one communal action.'' \<rparr> ]"



definition march_7 :: datetime where
  "march_7 = \<lparr> dt_year = 2024, dt_month = 3, dt_day = 7, dt_time = 0 \<rparr>"

definition sample_isoparse :: "string \<Rightarrow> exn + datetime" where
  "sample_isoparse s =
     (if s = ''2024-03-01'' then datetime_new 2024 3 1
      else if s = ''2024-03-12'' then datetime_new 2024 3 12
      else if s = ''2024-06-30'' then datetime_new 2024 6 30
      else Inl ValueError)"

definition sample_calendar :: "string \<rightharpoonup> profile" where
  "sample_calendar =
     [''default'' \<mapsto>
        \<lparr> name = Some ''Community Fellowship'', location = Some ''Singapore'',
          profile_values = Some [''Hospitality'', ''Scripture''],
          significant_dates = Some
            [ \<lparr> date = ''2024-03-12'', description = ''Prayer retreat'',
                item_emphasis = Some ''Listening'' \<rparr>,
              \<lparr> date = ''next spring'', description = ''Building fund'',
                item_emphasis = None \<rparr>,
              \<lparr> date = ''2024-06-30'', description = ''Anniversary'',
                item_emphasis = Some ''Gratitude'' \<rparr>,
              \<lparr> date = ''2024-03-01'', description = ''Baptism service'',
                item_emphasis = None \<rparr> ] \<rparr>]"


definition march_7_info :: congregation_info where
  "march_7_info =
     \<lparr> context_name = Some ''Community Fellowship'', context_location = Some ''Singapore'',
       context_values = [''Hospitality'', ''Scripture''],
       nearby_events =
         [ \<lparr> event_description = ''Prayer retreat'', event_emphasis = Some ''Listening'',
             event_days_apart = 5 \<rparr>,
           \<lparr> event_description = ''Baptism service'', event_emphasis = None,
             event_days_apart = 6 \<rparr> ] \<rparr>"

section \<open>Properties of the sample selector\<close>

lemma passage_loop_find:
  "passage_loop lower np xs = find (passage_matches lower np) xs"
  by (induction xs) auto

lemma topic_loop_find:
  "topic_loop lower nt xs = find (topic_matches lower nt) xs"
  by (induction xs) auto

lemma topic_matches_iff:
  "topic_matches lower nt s \<longleftrightarrow> (\<exists>theme \<in> set (themes s). sublist nt (lower theme))"
  by (simp add: topic_matches_def list_ex_iff)

text \<open>
  C5. On a non-empty catalog \<open>select_sample\<close> always returns a sample, whatever the case
  mapping \<open>lower\<close> is: the first entry whose lowercased reference contains the lowercased
  passage, when that lowercased passage is not empty and some entry matches; otherwise the
  first entry with a theme whose lowercased form contains the lowercased topic, when that
  lowercased topic is not empty and some entry matches; otherwise the first entry of the
  catalog.
\<close>

theorem select_sample_priority:
  "ETCBC_SAMPLES \<noteq> [] \<Longrightarrow>
   select_sample lower ETCBC_SAMPLES topic passage =
     Inr (case find (\<lambda>s. lower (or_empty passage) \<noteq> []
                        \<and> sublist (lower (or_empty passage)) (lower (reference s)))
                 ETCBC_SAMPLES of
            Some s \<Rightarrow> s
          | None \<Rightarrow>
              (case find (\<lambda>s. lower (or_empty topic) \<noteq> []
                            \<and> (\<exists>theme \<in> set (themes s).
                                  sublist (lower (or_empty topic)) (lower theme)))
                     ETCBC_SAMPLES of
                 Some s \<Rightarrow> s
               | None \<Rightarrow> ETCBC_SAMPLES ! 0))"
proof -
  assume nonempty: "ETCBC_SAMPLES \<noteq> []"
  let ?np = "lower (or_empty passage)" and ?nt = "lower (or_empty topic)"
  have p: "passage_loop lower ?np ETCBC_SAMPLES =
      find (\<lambda>s. ?np \<noteq> [] \<and> sublist ?np (lower (reference s))) ETCBC_SAMPLES"
  proof -
    have "passage_matches lower ?np = (\<lambda>s. ?np \<noteq> [] \<and> sublist ?np (lower (reference s)))"
      by (rule ext) (simp add: passage_matches_def)
    then show ?thesis by (simp add: passage_loop_find)
  qed
  have t: "(if ?nt \<noteq> [] then topic_loop lower ?nt ETCBC_SAMPLES else None) =
      find (\<lambda>s. ?nt \<noteq> [] \<and> (\<exists>theme \<in> set (themes s). sublist ?nt (lower theme)))
        ETCBC_SAMPLES"
  proof (cases "?nt = []")
    case True
    then have "find (\<lambda>s. ?nt \<noteq> [] \<and> (\<exists>theme \<in> set (themes s). sublist ?nt (lower theme)))
        ETCBC_SAMPLES = None"
      by (simp add: find_None_iff)
    with True show ?thesis by simp
  next
    case False
    then have "topic_matches lower ?nt =
        (\<lambda>s. ?nt \<noteq> [] \<and> (\<exists>theme \<in> set (themes s). sublist ?nt (lower theme)))"
      by (intro ext) (simp add: topic_matches_iff)
    with False show ?thesis
      by (simp add: topic_loop_find)
  qed
  from nonempty obtain x xs where xs: "ETCBC_SAMPLES = x # xs"
    by (cases ETCBC_SAMPLES) auto
  have first: "(case ETCBC_SAMPLES of [] \<Rightarrow> Inl IndexError | sample # _ \<Rightarrow> Inr sample)
      = Inr (ETCBC_SAMPLES ! 0)"
    by (simp add: xs)
  show ?thesis
    unfolding select_sample_def Let_def p t first
    by (simp split: option.split)
qed

theorem select_sample_priority_witness:
  "example_catalog \<noteq> []
   \<and> select_sample ascii_lower example_catalog (Some ''deliver'') (Some ''Psalm'')
       = Inr (example_catalog ! 1)"
proof -
  have nonempty: "example_catalog \<noteq> []"
    by (simp add: example_catalog_def)
  have pick: "(case find (\<lambda>s. ascii_lower (or_empty (Some ''Psalm'')) \<noteq> []
                        \<and> sublist (ascii_lower (or_empty (Some ''Psalm'')))
                             (ascii_lower (reference s)))
                 example_catalog of
            Some s \<Rightarrow> s
          | None \<Rightarrow>
              (case find (\<lambda>s. ascii_lower (or_empty (Some ''deliver'')) \<noteq> []
                            \<and> (\<exists>theme \<in> set (themes s).
                                  sublist (ascii_lower (or_empty (Some ''deliver'')))
                                    (ascii_lower theme)))
                     example_catalog of
                 Some s \<Rightarrow> s
               | None \<Rightarrow> example_catalog ! 0)) = example_catalog ! 1"
    by code_simp
  show ?thesis
    using nonempty
      select_sample_priority [OF nonempty, of ascii_lower "Some ''deliver''" "Some ''Psalm''"]
    unfolding pick by simp
qed

section \<open>Properties of the festival matcher\<close>












section \<open>Properties of the congregation context resolver\<close>








section \<open>The matcher and the resolver at concrete inputs\<close>







lemma march_7_harbour_events:
  "sort_key event_days_apart
     (concat (map (item_events sample_isoparse march_7)
        (filter (item_parses sample_isoparse)
           (get_or (significant_dates (resolve_record sample_calendar ''harbour'')) []))))
   = nearby_events march_7_info"
  by code_simp







section \<open>Properties of the narrative composer\<close>

lemma sublist_inner: "sublist xs ((a @ b @ xs @ c) @ d)"
  unfolding sublist_def by (metis append.assoc)

lemma sublist_last: "sublist xs (ps @ xs)"
  unfolding sublist_def by (metis append_Nil2)

text \<open>
  C9. The conclusion contains the sample's language-focus term and ends with the fixed
  closing charge in three parts (embrace the invitation, embody the blessing, walk toward
  transformation), and the introduction passed to \<open>build_conclusion\<close> has no influence
  on it.
\<close>

theorem build_conclusion_focus_charge_independent:
  "sublist (hebrew_focus s) (build_conclusion s i1)
   \<and> sublist ''embrace God's invitation, embody covenantal blessing, and walk toward Christlike transformation together.''
        (build_conclusion s i1)
   \<and> build_conclusion s i1 = build_conclusion s i2"
proof -
  have "sublist (hebrew_focus s) (build_conclusion s i1)"
    unfolding build_conclusion_def Let_def by (rule sublist_inner)
  moreover have "sublist ''embrace God's invitation, embody covenantal blessing, and walk toward Christlike transformation together.''
        (build_conclusion s i1)"
    unfolding build_conclusion_def Let_def by (rule sublist_last)
  moreover have "build_conclusion s i1 = build_conclusion s i2"
    by (simp only: build_conclusion_def)
  ultimately show ?thesis by (intro conjI)
qed

text \<open>
  C3, as the code has it. The section list has two entries below 25 minutes and three from
  25 minutes on. The condensed list starts with the first section of the full list, and
  its second section carries \<open>lexical_insights[:1]\<close>: one note when the sample has a
  lexical insight, none when it has not.
\<close>

theorem construct_sections_shape:
  "length (construct_sections s m) = (if m < 25 then 2 else 3)
   \<and> (m < 25 \<longrightarrow> 25 \<le> m' \<longrightarrow> construct_sections s m ! 0 = construct_sections s m' ! 0)
   \<and> (m < 25 \<longrightarrow> exegetical (construct_sections s m ! 1) = take 1 (lexical_insights s))
   \<and> (m < 25 \<longrightarrow> lexical_insights s \<noteq> [] \<longrightarrow>
         length (exegetical (construct_sections s m ! 1)) = 1)"
proof -
  have len: "length (construct_sections s m) = (if m < 25 then 2 else 3)"
    by (simp add: construct_sections_def base_points_def)
  have first: "construct_sections s m ! 0 = construct_sections s m' ! 0" if "m < 25" "25 \<le> m'"
    using that by (simp add: construct_sections_def base_points_def)
  have second: "exegetical (construct_sections s m ! 1) = take 1 (lexical_insights s)" if "m < 25"
    using that by (simp add: construct_sections_def base_points_def)
  have one: "length (exegetical (construct_sections s m ! 1)) = 1"
    if "m < 25" "lexical_insights s \<noteq> []"
  proof -
    from that(2) obtain x xs where "lexical_insights s = x # xs"
      by (cases "lexical_insights s") auto
    with second [OF that(1)] show ?thesis by simp
  qed
  from len first second one show ?thesis by blast
qed

theorem construct_sections_shape_witness:
  "(10::int) < 25 \<and> (25::int) \<le> 30 \<and> lexical_insights example_sample \<noteq> []
   \<and> length (construct_sections example_sample 10) = 2
   \<and> construct_sections example_sample 10 ! 0 = construct_sections example_sample 30 ! 0
   \<and> exegetical (construct_sections example_sample 10 ! 1) = [''Movement marks covenant.'']
   \<and> length (exegetical (construct_sections example_sample 10 ! 1)) = 1"
  using construct_sections_shape [of example_sample 10 30]
  by (simp add: example_sample_def)

text \<open>
  C3, as the claim states it, fails for a sample without lexical insights: below 25 minutes
  the second section of \<open>bare_sample\<close> has no exegetical note at all.
\<close>

theorem construct_sections_notes_counterexample:
  "length (construct_sections bare_sample 10) = 2
   \<and> length (exegetical (construct_sections bare_sample 10 ! 1)) \<noteq> 1"
  by (simp add: construct_sections_def base_points_def bare_sample_def example_sample_def)

section \<open>Properties of the runtime estimator\<close>

lemma rhe_cases:
  "round_half_even n e = (n div 2 ^ e) * 2 ^ e \<or> round_half_even n e = (n div 2 ^ e + 1) * 2 ^ e"
  by (simp add: round_half_even_def Let_def)

lemma rhe_fix: "n mod 2 ^ e = 0 \<Longrightarrow> round_half_even n e = n"
  by (auto simp add: round_half_even_def Let_def)

lemma rhe_error: "2 * \<bar>round_half_even n e - n\<bar> \<le> 2 ^ e"
proof -
  define P :: int where "P = 2 ^ e"
  define q where "q = n div P"
  define r where "r = n mod P"
  have P: "0 < P" by (simp add: P_def)
  have n: "n = q * P + r"
    unfolding q_def r_def by (rule div_mult_mod_eq [symmetric])
  have r: "0 \<le> r" "r < P" using P by (simp_all add: r_def)
  have R: "round_half_even n e = (if P < 2 * r \<or> (2 * r = P \<and> odd q) then (q + 1) * P else q * P)"
    by (simp add: round_half_even_def Let_def P_def q_def r_def)
  show ?thesis
  proof (cases "P < 2 * r \<or> (2 * r = P \<and> odd q)")
    case True
    have "round_half_even n e = (q + 1) * P"
      by (simp only: R True if_True)
    moreover have "(q + 1) * P - n = P - r"
      using n by (simp add: algebra_simps)
    ultimately have "round_half_even n e - n = P - r"
      by (simp only:)
    moreover from True have "P \<le> 2 * r" by auto
    ultimately have "2 * \<bar>round_half_even n e - n\<bar> \<le> P" using r by arith
    then show ?thesis by (simp add: P_def)
  next
    case False
    have "round_half_even n e = q * P"
      by (simp only: R False if_False)
    moreover have "q * P - n = - r"
      using n by (simp add: algebra_simps)
    ultimately have "round_half_even n e - n = - r"
      by (simp only:)
    moreover from False have "2 * r \<le> P" by auto
    ultimately have "2 * \<bar>round_half_even n e - n\<bar> \<le> P" using r by arith
    then show ?thesis by (simp add: P_def)
  qed
qed

lemma rhe_mono:
  assumes "a \<le> b"
  shows "round_half_even a e \<le> round_half_even b e"
proof -
  let ?P = "2 ^ e :: int"
  have P: "0 < ?P" by simp
  have qle: "a div ?P \<le> b div ?P" using assms P by (simp add: zdiv_mono1)
  show ?thesis
  proof (cases "a div ?P = b div ?P")
    case True
    have "a mod ?P \<le> b mod ?P"
      using assms True by (metis add_le_cancel_left mult_div_mod_eq)
    with True show ?thesis
      by (auto simp add: round_half_even_def Let_def)
  next
    case False
    with qle have "a div ?P + 1 \<le> b div ?P" by simp
    then have "(a div ?P + 1) * ?P \<le> (b div ?P) * ?P"
      using P by (simp add: mult_right_mono)
    moreover have "round_half_even a e \<le> (a div ?P + 1) * ?P"
      using rhe_cases [of a e] P by (auto simp add: algebra_simps)
    moreover have "(b div ?P) * ?P \<le> round_half_even b e"
      using rhe_cases [of b e] P by (auto simp add: algebra_simps)
    ultimately show ?thesis by linarith
  qed
qed


lemma rhe_ge_grid: "g \<le> n \<Longrightarrow> g mod 2 ^ e = 0 \<Longrightarrow> g \<le> round_half_even n e"
  using rhe_mono [of g n e] rhe_fix [of g e] by simp

lemma round53_nonneg: "0 \<le> n \<Longrightarrow> 0 \<le> round53 n"
  unfolding round53_def by (rule rhe_ge_grid) simp_all

lemma round53_exact: "0 \<le> n \<Longrightarrow> n < 2 ^ 53 \<Longrightarrow> round53 n = n"
proof -
  assume "0 \<le> n" "n < 2 ^ 53"
  then have "bitlen n \<le> 53"
    by (simp add: bitlen_le_iff_power)
  then show ?thesis
    by (simp add: round53_def rhe_fix)
qed





lemma two_53: "(2::int) ^ 53 = 9007199254740992"
  by simp

lemma two_49: "(2::int) ^ 49 = 562949953421312"
  by simp

lemma residue_near_threshold:
  assumes "844424930131968 \<le> m" "m \<le> 844424930131982"
  shows "13 * m mod 20 \<le> (18::int)"
proof -
  define j where "j = m - 844424930131968"
  have j: "0 \<le> j" "j \<le> 14"
    using assms by (simp_all add: j_def)
  have "13 * m = (13 * j + 4) + 20 * 548876204585779"
    by (simp add: j_def)
  then have "13 * m mod 20 = (13 * j + 4) mod 20"
    by (simp only: mod_mult_self2)
  also have "\<dots> \<le> 18"
    using j by presburger
  finally show ?thesis .
qed

lemma round53_times_065:
  assumes "0 \<le> m" "m \<le> 844424930131982"
  shows "round53 (m * double_065) div 2 ^ 53 = 13 * m div 20"
proof -
  define N where "N = m * double_065"
  define k where "k = 13 * m div 20"
  define f where "f = 13 * m mod 20"
  define e where "e = nat (bitlen N - 53)"
  define R where "R = round53 N"
  note m = assms(2)
  have kf: "13 * m = 20 * k + f" "0 \<le> f" "f < 20"
    by (simp_all add: k_def f_def)
  have N20: "20 * N = 13 * m * 9007199254740992 + 4 * m"
    by (simp add: N_def double_065_def)
  have N0: "0 \<le> N"
    using assms(1) by (simp add: N_def double_065_def)
  have "N < 2 ^ 102"
    using N20 m by simp
  then have "bitlen N \<le> 102"
    by (simp add: bitlen_le_iff_power)
  then have e: "e \<le> 49"
    by (simp add: e_def)
  then have pe: "(2::int) ^ e \<le> 562949953421312"
    using power_increasing [of e 49 "2::int"] by simp
  have grid: "(k * 2 ^ 53) mod 2 ^ e = (0::int)"
  proof -
    have "(2::int) ^ e dvd 2 ^ 53"
      using e by (intro le_imp_power_dvd) simp
    then have "(2::int) ^ e dvd k * 2 ^ 53"
      by (rule dvd_mult)
    then show ?thesis by (simp add: mod_eq_0_iff_dvd)
  qed
  have N20': "20 * N = 20 * (k * 9007199254740992) + f * 9007199254740992 + 4 * m"
    unfolding N20 kf(1) by (simp add: algebra_simps)
  have lowN: "k * 2 ^ 53 \<le> N"
    using N20' kf(2) assms(1) unfolding two_53 by linarith
  have low: "k * 2 ^ 53 \<le> R"
    unfolding R_def round53_def e_def [symmetric]
    using lowN grid by (rule rhe_ge_grid)
  have "2 * (R - N) \<le> 2 * \<bar>R - N\<bar>"
    by arith
  also have "\<dots> \<le> 2 ^ e"
    using rhe_error [of N e] by (simp only: R_def round53_def e_def)
  finally have "2 * (R - N) \<le> 562949953421312"
    using pe by (rule order_trans)
  then have err: "2 * R \<le> 2 * N + 562949953421312"
    by simp
  have R40: "40 * R \<le> 40 * (k * 9007199254740992) + 2 * (f * 9007199254740992) + 8 * m
      + 11258999068426240"
  proof -
    have "40 * R \<le> 40 * N + 11258999068426240"
      using err by linarith
    also have "40 * N = 40 * (k * 9007199254740992) + 2 * (f * 9007199254740992) + 8 * m"
      using N20' by linarith
    finally show ?thesis .
  qed
  have "R < k * 9007199254740992 + 9007199254740992"
  proof (cases "m < 844424930131968")
    case True
    have "f * 9007199254740992 \<le> 19 * 9007199254740992"
      using kf(3) by (intro mult_right_mono) simp_all
    with R40 True show ?thesis by linarith
  next
    case False
    then have "f \<le> 18"
      unfolding f_def using m by (intro residue_near_threshold) simp_all
    then have "f * 9007199254740992 \<le> 18 * 9007199254740992"
      by (intro mult_right_mono) simp_all
    with R40 m show ?thesis by linarith
  qed
  then have up: "R < (k + 1) * 2 ^ 53"
    unfolding two_53 by (simp add: algebra_simps)
  have "R div 2 ^ 53 = k"
  proof (rule int_div_pos_eq [where r = "R - 2 ^ 53 * k"])
    show "R = 2 ^ 53 * k + (R - 2 ^ 53 * k)" by simp
    show "0 \<le> R - 2 ^ 53 * k" using low by (simp add: mult.commute)
    show "R - 2 ^ 53 * k < 2 ^ 53" using up by (simp add: algebra_simps)
  qed
  then show ?thesis
    by (simp only: R_def N_def k_def)
qed

lemma floor_065: "\<lfloor>real_of_int m * 0.65\<rfloor> = 13 * m div 20"
proof -
  have "real_of_int m * 0.65 = real_of_int (13 * m) / real_of_int 20"
    by simp
  then show ?thesis
    by (simp only: floor_divide_of_int_eq)
qed

lemma float_of_int_small: "\<bar>m\<bar> < 2 ^ 53 \<Longrightarrow> float_of_int m = Inr m"
proof -
  assume a: "\<bar>m\<bar> < 2 ^ 53"
  then have r: "round53 \<bar>m\<bar> = \<bar>m\<bar>"
    by (intro round53_exact) simp_all
  have "\<bar>m\<bar> < 2 ^ 1024"
    using a by (rule less_trans) simp
  then show ?thesis
    by (simp add: float_of_int_def r Let_def mult_sgn_abs)
qed

lemma int_of_scaled_nonneg: "0 \<le> x \<Longrightarrow> int_of_scaled x = x div 2 ^ 53"
  by (cases "x = 0") (simp_all add: int_of_scaled_def sgn_if)

lemma times_065_nonneg: "0 \<le> f \<Longrightarrow> times_065 f = round53 (f * double_065)"
  by (cases "f = 0") (simp_all add: times_065_def sgn_if round53_def round_half_even_def)

lemma estimate_runtime_small:
  assumes "\<bar>m\<bar> \<le> 2 ^ 49"
  shows "estimate_runtime m True = Inr (max 10 (13 * m div 20))"
proof -
  have "\<bar>m\<bar> < 2 ^ 53"
    using assms by (rule le_less_trans) simp
  then have f: "float_of_int m = Inr m"
    by (rule float_of_int_small)
  show ?thesis
  proof (cases "0 \<le> m")
    case True
    then have "round53 (m * double_065) div 2 ^ 53 = 13 * m div 20"
      using assms by (intro round53_times_065) simp_all
    moreover have "0 \<le> round53 (m * double_065)"
      using True by (intro round53_nonneg) (simp add: double_065_def)
    ultimately have "int_of_scaled (times_065 m) = 13 * m div 20"
      using True by (simp only: times_065_nonneg int_of_scaled_nonneg)
    then show ?thesis
      by (simp add: estimate_runtime_def f)
  next
    case False
    then have neg: "m < 0" by simp
    have nn: "0 \<le> round53 (\<bar>m\<bar> * double_065)"
      by (intro round53_nonneg) (simp add: double_065_def)
    have "times_065 m = - round53 (\<bar>m\<bar> * double_065)"
      using neg by (simp add: times_065_def)
    then have "int_of_scaled (times_065 m) \<le> 0"
      using nn by (simp add: int_of_scaled_def sgn_if pos_imp_zdiv_nonneg_iff)
    moreover have "13 * m div 20 < 0"
      using neg by (simp add: div_neg_pos_less0)
    ultimately show ?thesis
      by (simp add: estimate_runtime_def f)
  qed
qed

lemma float_of_int_in_range:
  assumes "0 \<le> m" "m < 2 ^ 1024 - 2 ^ 970"
  shows "float_of_int m = Inr (round53 m)"
proof -
  define A :: int where "A = 2 ^ 970"
  define e where "e = nat (bitlen m - 53)"
  have A: "0 < A" by (simp add: A_def)
  have p971: "(2::int) ^ 971 = 2 * A"
    unfolding A_def by (simp only: power_Suc [symmetric]) simp
  have "(2::int) ^ 1024 = 2 ^ 54 * 2 ^ 970"
    by (simp only: power_add [symmetric]) simp
  then have p1024: "(2::int) ^ 1024 = 18014398509481984 * A"
    by (simp add: A_def)
  have m: "m < 18014398509481984 * A - A"
    using assms(2) unfolding p1024 A_def [symmetric] .
  have "m < 2 ^ 1024"
    unfolding p1024 using m A by linarith
  then have "bitlen m \<le> 1024"
    by (simp add: bitlen_le_iff_power)
  then have "e \<le> 971"
    by (simp add: e_def)
  then have "(2::int) ^ e \<le> 2 ^ 971"
    by (intro power_increasing) simp_all
  then have pe: "(2::int) ^ e \<le> 2 * A"
    by (simp only: p971)
  have "2 * (round53 m - m) \<le> 2 * \<bar>round53 m - m\<bar>"
    by arith
  also have "\<dots> \<le> 2 ^ e"
    using rhe_error [of m e] by (simp only: round53_def e_def)
  also note pe
  finally have "round53 m \<le> m + A"
    by simp
  with m have "round53 m < 18014398509481984 * A"
    by linarith
  then have "\<not> 2 ^ 1024 \<le> round53 m"
    by (simp only: p1024 not_le)
  moreover have "sgn m * round53 m = round53 m"
    using assms(1) by (cases "m = 0") (simp_all add: sgn_if round53_def round_half_even_def)
  ultimately show ?thesis
    using assms(1) by (simp add: float_of_int_def Let_def)
qed


lemma estimate_runtime_in_range:
  assumes "0 \<le> m" "m < 2 ^ 1024 - 2 ^ 970"
  shows "estimate_runtime m True =
           Inr (max 10 (round53 (round53 m * double_065) div 2 ^ 53))"
proof -
  have "0 \<le> round53 m"
    using assms(1) by (rule round53_nonneg)
  then have "int_of_scaled (times_065 (round53 m)) = round53 (round53 m * double_065) div 2 ^ 53"
    by (simp add: times_065_nonneg int_of_scaled_nonneg round53_nonneg double_065_def)
  then show ?thesis
    by (simp add: estimate_runtime_def float_of_int_in_range [OF assms])
qed




lemma float_of_int_negative:
  assumes "m < 0" "- (2 ^ 1024 - 2 ^ 970) < m"
  shows "float_of_int m = Inr (- round53 (- m))"
proof -
  have "float_of_int (- m) = Inr (round53 (- m))"
    using assms by (intro float_of_int_in_range) simp_all
  then have "\<not> 2 ^ 1024 \<le> round53 \<bar>- m\<bar>"
    by (simp add: float_of_int_def Let_def split: if_splits)
  then show ?thesis
    using assms(1) by (simp add: float_of_int_def Let_def)
qed

lemma times_065_nonpos: "f \<le> 0 \<Longrightarrow> times_065 f \<le> 0"
proof -
  assume "f \<le> 0"
  moreover have "0 \<le> round53 (\<bar>f\<bar> * double_065)"
    by (intro round53_nonneg) (simp add: double_065_def)
  ultimately show ?thesis
    by (simp add: times_065_def sgn_if mult_nonneg_nonpos2)
qed

lemma int_of_scaled_nonpos: "x \<le> 0 \<Longrightarrow> int_of_scaled x \<le> 0"
  by (simp add: int_of_scaled_def sgn_if pos_imp_zdiv_nonneg_iff)

lemma estimate_runtime_negative:
  assumes "m < 0" "- (2 ^ 1024 - 2 ^ 970) < m"
  shows "estimate_runtime m True = Inr 10"
proof -
  have "0 \<le> round53 (- m)"
    using assms(1) by (intro round53_nonneg) simp
  then have "int_of_scaled (times_065 (- round53 (- m))) \<le> 0"
    by (intro int_of_scaled_nonpos times_065_nonpos) simp
  then show ?thesis
    by (simp add: estimate_runtime_def float_of_int_negative [OF assms])
qed

lemma estimate_runtime_exact:
  assumes "- (2 ^ 1024 - 2 ^ 970) < m" "m \<le> 844424930131982"
  shows "estimate_runtime m True = Inr (max 10 (13 * m div 20))"
proof (cases "0 \<le> m")
  case True
  have top: "m < 2 ^ 1024 - 2 ^ 970"
    using assms(2) by (rule le_less_trans) simp
  have small: "m < 2 ^ 53"
    using assms(2) by (rule le_less_trans) simp
  have "round53 m = m"
    using True small by (rule round53_exact)
  then have "estimate_runtime m True = Inr (max 10 (round53 (m * double_065) div 2 ^ 53))"
    using estimate_runtime_in_range [OF True top] by simp
  then show ?thesis
    by (simp only: round53_times_065 [OF True assms(2)])
next
  case False
  then have neg: "m < 0" by simp
  then have "13 * m div 20 < 0"
    by (simp add: div_neg_pos_less0)
  then show ?thesis
    by (simp add: estimate_runtime_negative [OF neg assms(1)])
qed

text \<open>
  C2, as the code has it. Without the flag the requested duration comes back unchanged, for
  every integer. With the flag, the result is the greater of 10 and the floor of the exact
  product \<open>m * 0.65\<close> for every integer \<open>m\<close> above \<open>- (2 ^ 1024 - 2 ^ 970)\<close> and up to
  844424930131982, which covers the admitted range 10..120; the three values of the
  specification are as given.
\<close>

theorem estimate_runtime_spec:
  "estimate_runtime m False = Inr m
   \<and> (- (2 ^ 1024 - 2 ^ 970) < m \<and> m \<le> 844424930131982 \<longrightarrow>
        estimate_runtime m True = Inr (max 10 \<lfloor>real_of_int m * 0.65\<rfloor>))
   \<and> estimate_runtime 35 False = Inr 35
   \<and> estimate_runtime 35 True = Inr 22
   \<and> estimate_runtime 10 True = Inr 10"
proof -
  have a: "estimate_runtime m False = Inr m" for m
    by (simp add: estimate_runtime_def)
  have b: "estimate_runtime m True = Inr (max 10 \<lfloor>real_of_int m * 0.65\<rfloor>)"
    if "- (2 ^ 1024 - 2 ^ 970) < m \<and> m \<le> 844424930131982" for m
    using estimate_runtime_exact [of m] that by (simp only: floor_065)
  have c: "estimate_runtime 35 True = Inr 22" "estimate_runtime 10 True = Inr 10"
    by (simp_all add: estimate_runtime_small)
  from a b c show ?thesis by blast
qed

theorem estimate_runtime_spec_witness:
  "- (2 ^ 1024 - 2 ^ 970) < (844424930131982::int) \<and> (844424930131982::int) \<le> 844424930131982
   \<and> estimate_runtime 844424930131982 True = Inr 548876204585788
   \<and> max 10 \<lfloor>real_of_int 844424930131982 * 0.65\<rfloor> = 548876204585788"
proof -
  have h: "- (2 ^ 1024 - 2 ^ 970) < (844424930131982::int) \<and> (844424930131982::int) \<le> 844424930131982"
    by simp
  have f: "max 10 \<lfloor>real_of_int 844424930131982 * 0.65\<rfloor> = 548876204585788"
    by (simp only: floor_065)
  from estimate_runtime_spec [of 844424930131982] h
  have "estimate_runtime 844424930131982 True
      = Inr (max 10 \<lfloor>real_of_int 844424930131982 * 0.65\<rfloor>)"
    by blast
  with h f show ?thesis by simp
qed

text \<open>
  C2, as the claim states it, fails at \<open>m = 844424930131983\<close>, the least integer at which
  the floating-point product rounds up across an integer: the estimate is one more than the
  floor of \<open>m * 0.65\<close>.
\<close>

theorem estimate_runtime_rounding_counterexample:
  "estimate_runtime 844424930131983 True = Inr 548876204585789
   \<and> max 10 \<lfloor>real_of_int 844424930131983 * 0.65\<rfloor> = 548876204585788"
proof -
  have "estimate_runtime 844424930131983 True = Inr 548876204585789"
    by code_simp
  moreover have "max 10 \<lfloor>real_of_int 844424930131983 * 0.65\<rfloor> = 548876204585788"
    by (simp only: floor_065)
  ultimately show ?thesis by simp
qed

lemma estimate_runtime_negative_overflow:
  "estimate_runtime (- (2 ^ 1024 - 2 ^ 970)) True = Inl OverflowError"
  by code_simp

section \<open>Properties of the slide structurer\<close>

lemma append_section_slides_eq:
  "append_section_slides idx secs slides =
     slides @ map (\<lambda>k. section_slide (idx + k) (secs ! k)) [0..<length secs]"
proof (induction secs arbitrary: idx slides)
  case Nil
  then show ?case by simp
next
  case (Cons s rest)
  have "map (\<lambda>k. section_slide (idx + k) ((s # rest) ! k)) [0..<length (s # rest)]
      = section_slide idx s # map (\<lambda>k. section_slide (idx + 1 + k) (rest ! k)) [0..<length rest]"
    by (simp add: upt_conv_Cons map_Suc_upt [symmetric] del: upt_Suc)
  with Cons.IH [of "idx + 1" "slides @ [section_slide idx s]"] show ?case
    by simp
qed

lemma create_slides_eq:
  "create_slides intro secs concl =
     opening_slide intro # map (\<lambda>k. section_slide (k + 1) (secs ! k)) [0..<length secs]
       @ [closing_slide concl]"
  by (simp add: create_slides_def Let_def append_section_slides_eq)

lemma str_nat_1: "str_nat (Suc 0) = ''1''"
  by (simp add: str_nat.simps digit_def)

lemma str_nat_2: "str_nat 2 = ''2''"
  by (simp add: str_nat.simps digit_def)

text \<open>
  C4. For \<open>n\<close> sections there are \<open>n + 2\<close> slides: the opening slide with the
  introduction as its only bullet, then for the \<open>k\<close>-th section (counting from 0) a slide
  titled with the decimal \<open>k + 1\<close>, a full stop, a space and the section's title, whose
  bullets are the content, the exegetical notes in order and the application, and last the
  closing slide with the conclusion as its only bullet.
\<close>

theorem create_slides_structure:
  "length (create_slides intro secs concl) = length secs + 2
   \<and> create_slides intro secs concl ! 0 =
       \<lparr> slide_title = ''Opening Story'', bullets = [intro],
         speaker_notes = ''Welcome, frame the occasion, and read the passage aloud.'' \<rparr>
   \<and> (\<forall>k < length secs.
         create_slides intro secs concl ! (k + 1) =
           \<lparr> slide_title = str_nat (k + 1) @ ''. '' @ title (secs ! k),
             bullets = [content (secs ! k)] @ exegetical (secs ! k) @ [application (secs ! k)],
             speaker_notes = ''Guide discussion; invite observations and response.'' \<rparr>)
   \<and> create_slides intro secs concl ! (length secs + 1) =
       \<lparr> slide_title = ''Sending Charge'', bullets = [concl],
         speaker_notes = ''Summarize commitments and pray a commissioning blessing.'' \<rparr>"
proof -
  let ?mid = "map (\<lambda>k. section_slide (k + 1) (secs ! k)) [0..<length secs]"
  have len: "length ?mid = length secs" by simp
  have eq: "create_slides intro secs concl = opening_slide intro # ?mid @ [closing_slide concl]"
    by (rule create_slides_eq)
  have a: "length (create_slides intro secs concl) = length secs + 2"
    unfolding eq by simp
  have b: "create_slides intro secs concl ! 0 = opening_slide intro"
    unfolding eq by simp
  have c: "create_slides intro secs concl ! (k + 1) = section_slide (k + 1) (secs ! k)"
    if "k < length secs" for k
    unfolding eq using that by (simp add: nth_append)
  have d: "create_slides intro secs concl ! (length secs + 1) = closing_slide concl"
    unfolding eq using len by (simp add: nth_append)
  show ?thesis
    using a b c d by (simp add: opening_slide_def closing_slide_def section_slide_def)
qed

theorem create_slides_structure_witness:
  "length (create_slides ''Hello'' example_sections ''Bye'') = 4
   \<and> slide_title (create_slides ''Hello'' example_sections ''Bye'' ! 0) = ''Opening Story''
   \<and> bullets (create_slides ''Hello'' example_sections ''Bye'' ! 0) = [''Hello'']
   \<and> slide_title (create_slides ''Hello'' example_sections ''Bye'' ! 1) = ''1. Textual Horizon''
   \<and> slide_title (create_slides ''Hello'' example_sections ''Bye'' ! 2) = ''2. Concise Insight''
   \<and> bullets (create_slides ''Hello'' example_sections ''Bye'' ! 2) =
        [''Emphasize the pivot.'', ''Movement marks covenant.'',
         ''Offer one spiritual practice and one communal action.'']
   \<and> slide_title (create_slides ''Hello'' example_sections ''Bye'' ! 3) = ''Sending Charge''
   \<and> bullets (create_slides ''Hello'' example_sections ''Bye'' ! 3) = [''Bye'']"
proof -
  let ?slides = "create_slides ''Hello'' example_sections ''Bye''"
  have l: "length example_sections = 2"
    by (simp add: example_sections_def)
  note t = create_slides_structure [of "''Hello''" example_sections "''Bye''"]
  from t have t3: "\<forall>k<length example_sections. ?slides ! (k + 1) =
           \<lparr> slide_title = str_nat (k + 1) @ ''. '' @ title (example_sections ! k),
             bullets = [content (example_sections ! k)] @ exegetical (example_sections ! k)
               @ [application (example_sections ! k)],
             speaker_notes = ''Guide discussion; invite observations and response.'' \<rparr>"
    by blast
  have k0: "?slides ! 1 =
           \<lparr> slide_title = str_nat 1 @ ''. '' @ title (example_sections ! 0),
             bullets = [content (example_sections ! 0)] @ exegetical (example_sections ! 0)
               @ [application (example_sections ! 0)],
             speaker_notes = ''Guide discussion; invite observations and response.'' \<rparr>"
    using t3 [rule_format, of 0] l by simp
  have k1: "?slides ! 2 =
           \<lparr> slide_title = str_nat 2 @ ''. '' @ title (example_sections ! 1),
             bullets = [content (example_sections ! 1)] @ exegetical (example_sections ! 1)
               @ [application (example_sections ! 1)],
             speaker_notes = ''Guide discussion; invite observations and response.'' \<rparr>"
    using t3 [rule_format, of 1] l by (simp add: numeral_2_eq_2)
  have first: "?slides ! 0 =
       \<lparr> slide_title = ''Opening Story'', bullets = [''Hello''],
         speaker_notes = ''Welcome, frame the occasion, and read the passage aloud.'' \<rparr>"
    using t by simp
  have last: "?slides ! 3 =
       \<lparr> slide_title = ''Sending Charge'', bullets = [''Bye''],
         speaker_notes = ''Summarize commitments and pray a commissioning blessing.'' \<rparr>"
    using t l by simp
  have len: "length ?slides = 4"
    using t l by simp
  show ?thesis
    using first k0 k1 last len
    by (simp add: example_sections_def str_nat_1 str_nat_2)
qed

end
